theory Spec2Isabelle
  imports Complex_Main "HOL-Library.Sublist"
begin

section \<open>JavaScript numbers\<close>

text \<open>
  The components compute with JavaScript numbers, which are IEEE 754 doubles. A finite
  double is modelled by the rational it denotes, together with the two infinities and
  \<open>NaN\<close>; every arithmetic operation computes the exact result and rounds it to the
  nearest double, a tie going to the even significand, as the hardware does. The sign
  of zero is not modelled: there is one zero, and it divides like the positive zero.
  Comparisons, \<open>Math.min\<close>, \<open>Math.max\<close>, \<open>Math.round\<close> and \<open>toFixed\<close> give the same number
  for either zero.
\<close>

datatype jsnum = Num rat | PosInf | NegInf | NaN

text \<open>
  \<open>2\<close> to an integer power, and \<open>\<lfloor>log\<^sub>2 q\<rfloor>\<close> for a positive rational: halve a number from
  \<open>2\<close> on until it is below \<open>2\<close>, double a number below \<open>1\<close> until it reaches \<open>1\<close>.
\<close>

definition pow2 :: "int \<Rightarrow> rat" where
  "pow2 e = (if 0 \<le> e then 2 ^ nat e else 1 / 2 ^ nat (- e))"

function exponent_up :: "rat \<Rightarrow> int" where
  "exponent_up q = (if q < 2 then 0 else 1 + exponent_up (q / 2))"
  by pat_completeness auto
termination
proof (relation "measure (\<lambda>q. nat \<lceil>q\<rceil>)")
  show "wf (measure (\<lambda>q::rat. nat \<lceil>q\<rceil>))" by simp
next
  fix q :: rat
  assume "\<not> q < 2"
  then have "q / 2 \<le> q - 1" by simp
  then have "\<lceil>q / 2\<rceil> \<le> \<lceil>q - 1\<rceil>" by (rule ceiling_mono)
  moreover have "0 < \<lceil>q\<rceil>" using \<open>\<not> q < 2\<close> by simp
  ultimately show "(q / 2, q) \<in> measure (\<lambda>q. nat \<lceil>q\<rceil>)" by simp
qed

function exponent_down :: "rat \<Rightarrow> int" where
  "exponent_down q = (if q \<le> 0 \<or> 1 \<le> q then 0 else exponent_down (2 * q) - 1)"
  by pat_completeness auto
termination
proof (relation "measure (\<lambda>q. nat \<lceil>1 / q\<rceil>)")
  show "wf (measure (\<lambda>q::rat. nat \<lceil>1 / q\<rceil>))" by simp
next
  fix q :: rat
  assume "\<not> (q \<le> 0 \<or> 1 \<le> q)"
  then have q: "0 < q" "q < 1" by simp_all
  then have x: "1 < 1 / q" by simp
  have half: "\<lceil>1 / q / 2\<rceil> < \<lceil>1 / q\<rceil>"
  proof (cases "2 \<le> 1 / q")
    case True
    then have "1 / q / 2 \<le> 1 / q - 1" by simp
    then have "\<lceil>1 / q / 2\<rceil> \<le> \<lceil>1 / q - 1\<rceil>" by (rule ceiling_mono)
    moreover have "\<lceil>1 / q - 1\<rceil> = \<lceil>1 / q\<rceil> - 1" by simp
    ultimately show ?thesis by linarith
  next
    case False
    then have "1 / q / 2 \<le> 1" by simp
    then have "\<lceil>1 / q / 2\<rceil> \<le> 1" by (simp only: ceiling_le_one)
    moreover have "1 < \<lceil>1 / q\<rceil>" using x by (simp only: less_ceiling_iff of_int_1)
    ultimately show ?thesis by linarith
  qed
  have pos: "0 < \<lceil>1 / q\<rceil>" using q by (simp add: less_ceiling_iff)
  have eq: "1 / (2 * q) = 1 / q / 2" by simp
  have "nat \<lceil>1 / (2 * q)\<rceil> < nat \<lceil>1 / q\<rceil>"
    unfolding eq using half pos by linarith
  then show "(2 * q, q) \<in> measure (\<lambda>q. nat \<lceil>1 / q\<rceil>)"
    by (simp only: in_measure)
qed

declare exponent_up.simps [simp del] exponent_down.simps [simp del]

definition binary_exponent :: "rat \<Rightarrow> int" where
  "binary_exponent q = (if 1 \<le> q then exponent_up q else exponent_down q)"

text \<open>
  The integer nearest to \<open>x\<close>, a tie going to the even one: \<open>f\<close> is the floor of \<open>x\<close> and
  \<open>r\<close> what is left of \<open>x\<close> above it.
\<close>

definition tie_to_even :: "int \<Rightarrow> rat \<Rightarrow> int" where
  "tie_to_even f r =
     (if r < 1 / 2 then f
      else if 1 / 2 < r then f + 1
      else if even f then f else f + 1)"

definition nearest_above :: "int \<Rightarrow> rat \<Rightarrow> int" where
  "nearest_above f x = tie_to_even f (x - of_int f)"

definition round_half_even :: "rat \<Rightarrow> int" where
  "round_half_even x = nearest_above \<lfloor>x\<rfloor> x"

text \<open>
  Rounding a positive rational \<open>q\<close> to a double. With \<open>e\<close> the binary exponent of \<open>q\<close>,
  not below that of the subnormal numbers (\<open>-1022\<close>), the doubles around \<open>q\<close> are the
  multiples of \<open>ulp = 2\<^sup>e\<^sup>-\<^sup>5\<^sup>2\<close>, and \<open>q\<close> goes to the nearest multiple \<open>m * ulp\<close>, a tie
  going to the even \<open>m\<close>; the result is infinite when it reaches \<open>2\<^sup>1\<^sup>0\<^sup>2\<^sup>4\<close>.
\<close>

definition multiple_of_ulp :: "int \<Rightarrow> rat \<Rightarrow> int \<Rightarrow> jsnum" where
  "multiple_of_ulp e ulp m =
     (if 1023 < e \<or> (e = 1023 \<and> m = 9007199254740992) then PosInf
      else Num (of_int m * ulp))"

definition round_to_ulp :: "int \<Rightarrow> rat \<Rightarrow> rat \<Rightarrow> jsnum" where
  "round_to_ulp e ulp q = multiple_of_ulp e ulp (round_half_even (q / ulp))"

definition round_at_exponent :: "int \<Rightarrow> rat \<Rightarrow> jsnum" where
  "round_at_exponent e q = round_to_ulp e (pow2 (e - 52)) q"

definition round_pos :: "rat \<Rightarrow> jsnum" where
  "round_pos q = round_at_exponent (max (binary_exponent q) (- 1022)) q"

definition negate :: "jsnum \<Rightarrow> jsnum" where
  "negate x = (case x of Num v \<Rightarrow> Num (- v) | PosInf \<Rightarrow> NegInf | NegInf \<Rightarrow> PosInf | NaN \<Rightarrow> NaN)"

definition round_double :: "rat \<Rightarrow> jsnum" where
  "round_double q =
     (if q = 0 then Num 0
      else if 0 < q then round_pos q
      else negate (round_pos (- q)))"

text \<open>\<open>a < b\<close> and \<open>a <= b\<close>: every comparison with \<open>NaN\<close> is false.\<close>

fun js_lt :: "jsnum \<Rightarrow> jsnum \<Rightarrow> bool" where
  "js_lt NaN _ = False"
| "js_lt _ NaN = False"
| "js_lt (Num a) (Num b) = (a < b)"
| "js_lt _ NegInf = False"
| "js_lt NegInf _ = True"
| "js_lt PosInf _ = False"
| "js_lt _ PosInf = True"

fun js_le :: "jsnum \<Rightarrow> jsnum \<Rightarrow> bool" where
  "js_le NaN _ = False"
| "js_le _ NaN = False"
| "js_le (Num a) (Num b) = (a \<le> b)"
| "js_le NegInf _ = True"
| "js_le _ PosInf = True"
| "js_le _ NegInf = False"
| "js_le PosInf _ = False"

text \<open>\<open>Math.min(a, b)\<close> and \<open>Math.max(a, b)\<close>: \<open>NaN\<close> if either argument is.\<close>

fun Math_min :: "jsnum \<Rightarrow> jsnum \<Rightarrow> jsnum" where
  "Math_min NaN _ = NaN"
| "Math_min _ NaN = NaN"
| "Math_min a b = (if js_le a b then a else b)"

fun Math_max :: "jsnum \<Rightarrow> jsnum \<Rightarrow> jsnum" where
  "Math_max NaN _ = NaN"
| "Math_max _ NaN = NaN"
| "Math_max a b = (if js_le a b then b else a)"

text \<open>\<open>a + b\<close>, \<open>a - b\<close>, \<open>a * b\<close> and \<open>a / b\<close>.\<close>

fun js_add :: "jsnum \<Rightarrow> jsnum \<Rightarrow> jsnum" where
  "js_add NaN _ = NaN"
| "js_add _ NaN = NaN"
| "js_add (Num a) (Num b) = round_double (a + b)"
| "js_add PosInf NegInf = NaN"
| "js_add NegInf PosInf = NaN"
| "js_add PosInf _ = PosInf"
| "js_add NegInf _ = NegInf"
| "js_add _ PosInf = PosInf"
| "js_add _ NegInf = NegInf"

fun js_sub :: "jsnum \<Rightarrow> jsnum \<Rightarrow> jsnum" where
  "js_sub NaN _ = NaN"
| "js_sub _ NaN = NaN"
| "js_sub (Num a) (Num b) = round_double (a - b)"
| "js_sub PosInf PosInf = NaN"
| "js_sub NegInf NegInf = NaN"
| "js_sub PosInf _ = PosInf"
| "js_sub NegInf _ = NegInf"
| "js_sub _ PosInf = NegInf"
| "js_sub _ NegInf = PosInf"

fun js_mul :: "jsnum \<Rightarrow> jsnum \<Rightarrow> jsnum" where
  "js_mul NaN _ = NaN"
| "js_mul _ NaN = NaN"
| "js_mul (Num a) (Num b) = round_double (a * b)"
| "js_mul (Num a) PosInf = (if a = 0 then NaN else if 0 < a then PosInf else NegInf)"
| "js_mul (Num a) NegInf = (if a = 0 then NaN else if 0 < a then NegInf else PosInf)"
| "js_mul PosInf (Num b) = (if b = 0 then NaN else if 0 < b then PosInf else NegInf)"
| "js_mul NegInf (Num b) = (if b = 0 then NaN else if 0 < b then NegInf else PosInf)"
| "js_mul PosInf PosInf = PosInf"
| "js_mul NegInf NegInf = PosInf"
| "js_mul PosInf NegInf = NegInf"
| "js_mul NegInf PosInf = NegInf"

fun js_div :: "jsnum \<Rightarrow> jsnum \<Rightarrow> jsnum" where
  "js_div NaN _ = NaN"
| "js_div _ NaN = NaN"
| "js_div (Num a) (Num b) =
     (if b = 0 then (if a = 0 then NaN else if 0 < a then PosInf else NegInf)
      else round_double (a / b))"
| "js_div (Num a) _ = Num 0"
| "js_div PosInf (Num b) = (if 0 \<le> b then PosInf else NegInf)"
| "js_div NegInf (Num b) = (if 0 \<le> b then NegInf else PosInf)"
| "js_div _ _ = NaN"

text \<open>
  \<open>Math.round(x)\<close>: the nearest integer, a tie going up. The integer nearest to a
  double is itself a double, so nothing is rounded a second time.
\<close>

fun Math_round :: "jsnum \<Rightarrow> jsnum" where
  "Math_round (Num q) = Num (of_int \<lfloor>q + 1 / 2\<rfloor>)"
| "Math_round x = x"

text \<open>
  \<open>Number(x.toFixed(2))\<close>: \<open>toFixed\<close> takes the integer \<open>n\<close> for which \<open>n / 100\<close> is nearest
  to the exact value of \<open>x\<close>, a tie going away from zero, and prints \<open>n / 100\<close>; \<open>Number\<close>
  reads the decimal back as the nearest double. From \<open>10\<^sup>2\<^sup>1\<close> on \<open>toFixed\<close> prints the
  number itself, which is the same value, since such a double is an integer. \<open>NaN\<close> and
  the infinities print as their names and read back.
\<close>

fun toFixed2 :: "jsnum \<Rightarrow> jsnum" where
  "toFixed2 (Num q) =
     (if q < 0 then round_double (- (of_int \<lfloor>- q * 100 + 1 / 2\<rfloor> / 100))
      else round_double (of_int \<lfloor>q * 100 + 1 / 2\<rfloor> / 100))"
| "toFixed2 x = x"

text \<open>The double that the literal \<open>0.8\<close> denotes.\<close>

definition literal_0_8 :: rat where
  "literal_0_8 = 3602879701896397 / 4503599627370496"

section \<open>NavigationView: the progress simulator\<close>

record segment =
  seg_distance :: rat
  seg_duration :: rat
  startPoint :: string
  endPoint :: string
  isLastMile :: bool

text \<open>
  The fields of \<open>Route\<close> that the simulator reads. \<open>distance = None\<close> and
  \<open>walkingSegments = None\<close> stand for an absent property.
\<close>

record route =
  duration :: rat
  distance :: "rat option"
  walkingSegments :: "segment list option"

text \<open>\<open>route.distance || 0.8\<close>: an absent or zero distance is falsy.\<close>

definition distance_or_default :: "route \<Rightarrow> rat" where
  "distance_or_default r =
     (case distance r of None \<Rightarrow> literal_0_8 | Some d \<Rightarrow> if d = 0 then literal_0_8 else d)"

definition segments :: "route \<Rightarrow> segment list" where
  "segments r =
     (case walkingSegments r of
        Some ws \<Rightarrow>
          if length ws > 0 then ws
          else [\<lparr>seg_distance = distance_or_default r, seg_duration = duration r,
                 startPoint = ''Start'', endPoint = ''Destination'', isLastMile = True\<rparr>]
      | None \<Rightarrow>
          [\<lparr>seg_distance = distance_or_default r, seg_duration = duration r,
            startPoint = ''Start'', endPoint = ''Destination'', isLastMile = True\<rparr>])"

text \<open>
  The array literal of the fallback is built anew on every render, so it is a different
  object each time; \<open>route.walkingSegments\<close> is the same object from render to render.
  \<open>segments\<close> is in the dependency list of the effect.
\<close>

definition segments_fresh :: "route \<Rightarrow> bool" where
  "segments_fresh r = (case walkingSegments r of Some ws \<Rightarrow> \<not> length ws > 0 | None \<Rightarrow> True)"

text \<open>
  The component: the values last passed to the four setters that \<open>tick\<close> calls, whether
  the component has been unmounted, the id that the cleanup of the latest effect closes
  over, the browser's table of requested animation frames, and the number of times
  \<open>onComplete\<close> has been called. Every requested callback is a \<open>tick\<close>; the table keeps,
  with the id of the request, the \<open>start\<close> that the closure of that \<open>tick\<close> captured.
\<close>

record nav =
  progress :: jsnum
  remainingMinutes :: jsnum
  remainingDistance :: jsnum
  currentSegmentIndex :: nat
  unmounted :: bool
  effect_id :: nat
  raf_pending :: "(nat \<times> rat) list"
  raf_next :: nat
  completed :: nat

definition requestAnimationFrame :: "rat \<Rightarrow> nav \<Rightarrow> nav" where
  "requestAnimationFrame st w =
     w\<lparr>raf_pending := raf_pending w @ [(raf_next w, st)], raf_next := Suc (raf_next w)\<rparr>"

definition cancelAnimationFrame :: "nat \<Rightarrow> nav \<Rightarrow> nav" where
  "cancelAnimationFrame i w = w\<lparr>raf_pending := filter (\<lambda>cb. fst cb \<noteq> i) (raf_pending w)\<rparr>"

text \<open>\<open>segments.reduce((s, seg) => s + seg.duration, 0)\<close>.\<close>

definition total_duration :: "segment list \<Rightarrow> jsnum" where
  "total_duration segs = foldl (\<lambda>s seg. js_add s (Num (seg_duration seg))) (Num 0) segs"

text \<open>The \<open>for\<close> loop of \<open>tick\<close>: \<open>Some i\<close> when it calls \<open>setCurrentSegmentIndex(i)\<close>
  and breaks, \<open>None\<close> when it runs off the end of the list.\<close>

fun scan_segments :: "jsnum \<Rightarrow> jsnum \<Rightarrow> nat \<Rightarrow> segment list \<Rightarrow> nat option" where
  "scan_segments target cum i [] = None"
| "scan_segments target cum i (s # ss) =
     (let cum' = js_add cum (Num (seg_duration s))
      in if js_le target cum' then Some i
         else scan_segments target cum' (Suc i) ss)"

text \<open>The first three lines of \<open>tick\<close>, for a closure that captured \<open>start = st\<close>.\<close>

definition fraction_at :: "route \<Rightarrow> rat \<Rightarrow> rat \<Rightarrow> jsnum" where
  "fraction_at r st now =
     (let durationMs = js_mul (js_mul (Num (duration r)) (Num 60)) (Num 1000);
          elapsed = js_sub (Num now) (Num st)
      in Math_min (js_div elapsed durationMs) (Num 1))"

definition tick :: "route \<Rightarrow> rat \<Rightarrow> rat \<Rightarrow> nav \<Rightarrow> nav" where
  "tick r st now w =
     (let fraction = fraction_at r st now;
          w1 = w\<lparr>progress := fraction,
                 remainingMinutes :=
                   Math_max (Math_round (js_mul (Num (duration r)) (js_sub (Num 1) fraction)))
                     (Num 0),
                 remainingDistance :=
                   Math_max
                     (toFixed2 (js_mul (Num (distance_or_default r)) (js_sub (Num 1) fraction)))
                     (Num 0)\<rparr>;
          totalDur = total_duration (segments r);
          target = js_mul totalDur fraction;
          w2 = (case scan_segments target (Num 0) 0 (segments r) of
                  Some i \<Rightarrow> w1\<lparr>currentSegmentIndex := i\<rparr>
                | None \<Rightarrow> w1)
      in if js_lt fraction (Num 1) then requestAnimationFrame st w2
         else w2\<lparr>completed := Suc (completed w2)\<rparr>)"

text \<open>
  The body of the effect at clock reading \<open>now\<close>: it captures \<open>start\<close>, requests the
  first frame and returns a cleanup that closes over the id of that request.
\<close>

definition effect :: "rat \<Rightarrow> nav \<Rightarrow> nav" where
  "effect now w = (requestAnimationFrame now w)\<lparr>effect_id := raf_next w\<rparr>"

definition cleanup :: "nav \<Rightarrow> nav" where
  "cleanup w = cancelAnimationFrame (effect_id w) w"

text \<open>Mounting: the initial values of the hooks, then the effect.\<close>

definition mount :: "route \<Rightarrow> rat \<Rightarrow> nav" where
  "mount r now =
     effect now
       \<lparr>progress = Num 0, remainingMinutes = Num (duration r),
        remainingDistance = Num (distance_or_default r), currentSegmentIndex = 0,
        unmounted = False, effect_id = 0, raf_pending = [], raf_next = 0, completed = 0\<rparr>"

text \<open>
  What can happen to the component. The browser paints a frame at clock reading \<open>now\<close>
  and runs every callback requested before that frame; when the setters have changed
  the state of a mounted component, React renders it again, and when that render finds
  a dependency of the effect changed, it runs the cleanup of the old effect and then
  the effect again. The route and \<open>onComplete\<close> are taken to stay the same, so the only
  dependency that can change is \<open>segments\<close>. Or the screen is left: the cleanup runs and
  the component is unmounted.
\<close>

datatype event = Frame rat | Teardown

definition hooks :: "nav \<Rightarrow> jsnum \<times> jsnum \<times> jsnum \<times> nat" where
  "hooks w = (progress w, remainingMinutes w, remainingDistance w, currentSegmentIndex w)"

fun step :: "route \<Rightarrow> nav \<Rightarrow> event \<Rightarrow> nav" where
  "step r w (Frame now) =
     (let w1 = foldl (\<lambda>w' cb. tick r (snd cb) now w') (w\<lparr>raf_pending := []\<rparr>) (raf_pending w)
      in if \<not> unmounted w \<and> hooks w1 \<noteq> hooks w \<and> segments_fresh r
         then effect now (cleanup w1)
         else w1)"
| "step r w Teardown = (cleanup w)\<lparr>unmounted := True\<rparr>"

definition run :: "route \<Rightarrow> nav \<Rightarrow> event list \<Rightarrow> nav" where
  "run r w es = foldl (step r) w es"

section \<open>RealMap: route geometry, transit stops and the map view\<close>

record latlng =
  lat :: rat
  lng :: rat

datatype transit_icon = walk | bus | rail

record transit_stop =
  point :: latlng
  icon :: transit_icon

text \<open>The fields of \<open>RouteWithGeo\<close> that the map reads; \<open>None\<close> is an absent property.\<close>

record route_with_geo =
  destinationCoords :: "latlng option"
  pathCoordinates :: "latlng list option"
  transportModes :: "string list option"

text \<open>
  What the effects and memos of \<open>RealMap\<close> work on: the props, the two state hooks
  \<open>userLocation\<close> and \<open>routeLine\<close>, and the messages the component has passed to
  \<open>console.error\<close>.
\<close>

record real_map =
  selectedRoute :: "route_with_geo option"
  destinationCoords_prop :: "latlng option"
  recenterToken :: "int option"
  userLocation :: "latlng option"
  routeLine :: "latlng list"
  console_error :: "string list"

definition destinationPoint :: "real_map \<Rightarrow> latlng option" where
  "destinationPoint p =
     (case selectedRoute p of
        Some r \<Rightarrow>
          (case destinationCoords r of Some d \<Rightarrow> Some d | None \<Rightarrow> destinationCoords_prop p)
      | None \<Rightarrow> destinationCoords_prop p)"

subsection \<open>The geometry effect\<close>

text \<open>
  The body of the routing service's answer, as far as the code looks into it:
  \<open>data.routes?.[0]?.geometry?.coordinates\<close>, a list of \<open>[longitude, latitude]\<close> pairs.
\<close>

record osrm_geometry =
  coordinates :: "(rat \<times> rat) list option"

record osrm_route =
  geometry :: "osrm_geometry option"

record osrm_data =
  routes :: "osrm_route list option"

text \<open>
  How the promise chain \<open>fetch(url).then(res => res.json()).then(...)\<close> can settle:
  \<open>fetch\<close> rejects with an error of the given name (\<open>AbortError\<close> after
  \<open>controller.abort()\<close>), \<open>res.json()\<close> rejects with an error of the given name, or the body
  parses to \<open>data\<close>.
\<close>

datatype fetch_outcome = FetchRejected string | JsonRejected string | JsonData osrm_data

definition response_coordinates :: "osrm_data \<Rightarrow> (rat \<times> rat) list option" where
  "response_coordinates d =
     (case routes d of
        None \<Rightarrow> None
      | Some [] \<Rightarrow> None
      | Some (r0 # _) \<Rightarrow> (case geometry r0 of None \<Rightarrow> None | Some g \<Rightarrow> coordinates g))"

text \<open>
  The synchronous part of the geometry effect: the new state, and whether a request was
  sent to the routing service.
\<close>

definition geometry_effect :: "real_map \<Rightarrow> real_map \<times> bool" where
  "geometry_effect p =
     (case (case selectedRoute p of None \<Rightarrow> None | Some r \<Rightarrow> pathCoordinates r) of
        Some (c # cs) \<Rightarrow> (p\<lparr>routeLine := c # cs\<rparr>, False)
      | _ \<Rightarrow>
          if userLocation p = None \<or> destinationPoint p = None
          then (p\<lparr>routeLine := []\<rparr>, False)
          else (p, True))"

text \<open>The two \<open>then\<close> callbacks and the \<open>catch\<close> callback, by the way the chain settles.\<close>

definition fetch_settled :: "fetch_outcome \<Rightarrow> real_map \<Rightarrow> real_map" where
  "fetch_settled out p =
     (case out of
        JsonData d \<Rightarrow>
          (case response_coordinates d of
             None \<Rightarrow> p
           | Some cs \<Rightarrow> p\<lparr>routeLine := map (\<lambda>c. \<lparr>lat = snd c, lng = fst c\<rparr>) cs\<rparr>)
      | FetchRejected name \<Rightarrow>
          if name \<noteq> ''AbortError''
          then p\<lparr>console_error := console_error p @ [''Routing error:'']\<rparr>
          else p
      | JsonRejected name \<Rightarrow>
          if name \<noteq> ''AbortError''
          then p\<lparr>console_error := console_error p @ [''Routing error:'']\<rparr>
          else p)"

text \<open>One resolution: the effect runs and, when it sent a request, the request settles.\<close>

definition resolve_geometry :: "fetch_outcome \<Rightarrow> real_map \<Rightarrow> real_map" where
  "resolve_geometry out p =
     (case geometry_effect p of
        (p', True) \<Rightarrow> fetch_settled out p'
      | (p', False) \<Rightarrow> p')"

subsection \<open>Transit stops\<close>

text \<open>\<open>String.prototype.toLowerCase\<close> on ASCII text, and \<open>includes\<close>.\<close>

definition lower_char :: "char \<Rightarrow> char" where
  "lower_char c =
     (if 65 \<le> (of_char c :: nat) \<and> (of_char c :: nat) \<le> 90
      then char_of ((of_char c :: nat) + 32) else c)"

definition toLowerCase :: "string \<Rightarrow> string" where
  "toLowerCase s = map lower_char s"

definition str_includes :: "string \<Rightarrow> string \<Rightarrow> bool" where
  "str_includes s needle = sublist needle s"

definition transitStops :: "real_map \<Rightarrow> transit_stop list" where
  "transitStops p =
     (case (case selectedRoute p of None \<Rightarrow> None | Some r \<Rightarrow> transportModes r) of
        None \<Rightarrow> []
      | Some [] \<Rightarrow> []
      | Some modes \<Rightarrow>
          (let coords =
                 (case (case selectedRoute p of None \<Rightarrow> None | Some r \<Rightarrow> pathCoordinates r) of
                    Some (c # cs) \<Rightarrow> c # cs
                  | _ \<Rightarrow> routeLine p)
           in if length coords = 0 then []
              else
                let step = max 1 (length coords div length modes)
                in map (\<lambda>(idx, mode).
                          let pt = coords ! (min (idx * step) (length coords - 1));
                              normalized = toLowerCase mode
                          in \<lparr>point = pt,
                              icon =
                                (if str_includes normalized ''bus'' then bus
                                 else if str_includes normalized ''metro'' \<or>
                                         str_includes normalized ''mrt'' \<or>
                                         str_includes normalized ''rail''
                                 then rail
                                 else walk)\<rparr>)
                     (enumerate 0 modes)))"

subsection \<open>The map surface and the redraw effect\<close>

text \<open>The doubles that the literals \<open>3.139\<close> and \<open>101.686\<close> denote.\<close>

definition literal_3_139 :: rat where
  "literal_3_139 = 7068399615157993 / 2251799813685248"

definition literal_101_686 :: rat where
  "literal_101_686 = 3577758060224971 / 35184372088832"

definition center :: "real_map \<Rightarrow> latlng" where
  "center p =
     (case userLocation p of
        Some u \<Rightarrow> u
      | None \<Rightarrow>
          (case destinationPoint p of
             Some d \<Rightarrow> d
           | None \<Rightarrow> \<lparr>lat = literal_3_139, lng = literal_101_686\<rparr>))"

datatype marker_icon = userIcon | destinationIcon | transitIcon transit_icon

datatype layer = Polyline "latlng list" | Marker latlng marker_icon

record latlng_bounds =
  southWest :: latlng
  northEast :: latlng

text \<open>Leaflet's \<open>polyline.getBounds()\<close>: the smallest box around the points.\<close>

fun getBounds :: "latlng list \<Rightarrow> latlng_bounds option" where
  "getBounds [] = None"
| "getBounds (q # qs) =
     Some \<lparr>southWest = \<lparr>lat = fold min (map lat qs) (lat q), lng = fold min (map lng qs) (lng q)\<rparr>,
           northEast = \<lparr>lat = fold max (map lat qs) (lat q), lng = fold max (map lng qs) (lng q)\<rparr>\<rparr>"

text \<open>The calls that move the viewport: \<open>map.fitBounds(bounds, {padding})\<close> and
  \<open>map.setView(center, zoom)\<close>.\<close>

datatype view_call = fitBounds latlng_bounds "nat \<times> nat" | setView latlng nat

text \<open>
  The controller: whether \<open>mapRef\<close> and \<open>layerGroupRef\<close> hold the surface (they are set
  and cleared together), the layers of the group in the order they were added, the
  viewport calls made so far, and the two refs of the recenter policy.
\<close>

record map_ctrl =
  mounted :: bool
  layers :: "layer list"
  view_calls :: "view_call list"
  firstDrawRef :: bool
  lastRecenterTokenRef :: "int option"

definition initial_ctrl :: map_ctrl where
  "initial_ctrl =
     \<lparr>mounted = False, layers = [], view_calls = [], firstDrawRef = True,
      lastRecenterTokenRef = None\<rparr>"

definition init_map :: "map_ctrl \<Rightarrow> map_ctrl" where
  "init_map c = (if mounted c then c else c\<lparr>mounted := True, layers := []\<rparr>)"

definition remove_map :: "map_ctrl \<Rightarrow> map_ctrl" where
  "remove_map c = c\<lparr>mounted := False\<rparr>"

definition rearm :: "map_ctrl \<Rightarrow> map_ctrl" where
  "rearm c = c\<lparr>firstDrawRef := True\<rparr>"

definition forceRecenter :: "real_map \<Rightarrow> map_ctrl \<Rightarrow> bool" where
  "forceRecenter p c =
     (case recenterToken p of
        None \<Rightarrow> False
      | Some t \<Rightarrow> Some t \<noteq> lastRecenterTokenRef c)"

text \<open>The viewport calls of one redraw.\<close>

definition recenter_calls :: "real_map \<Rightarrow> map_ctrl \<Rightarrow> view_call list" where
  "recenter_calls p c =
     (let polylineBounds = (if length (routeLine p) > 1 then getBounds (routeLine p) else None);
          shouldRecenter = (firstDrawRef c \<or> forceRecenter p c)
      in if shouldRecenter
         then (case polylineBounds of
                 Some b \<Rightarrow> [fitBounds b (32, 32)]
               | None \<Rightarrow> [setView (center p) (if forceRecenter p c then 16 else 14)])
         else [])"

definition redraw :: "real_map \<Rightarrow> map_ctrl \<Rightarrow> map_ctrl" where
  "redraw p c =
     (if \<not> mounted c then c
      else
        c\<lparr>layers :=
             (if length (routeLine p) > 1 then [Polyline (routeLine p)] else [])
             @ (case userLocation p of Some u \<Rightarrow> [Marker u userIcon] | None \<Rightarrow> [])
             @ (case destinationPoint p of Some d \<Rightarrow> [Marker d destinationIcon] | None \<Rightarrow> [])
             @ map (\<lambda>s. Marker (point s) (transitIcon (icon s))) (transitStops p),
           view_calls := view_calls c @ recenter_calls p c,
           firstDrawRef := False,
           lastRecenterTokenRef :=
             (if forceRecenter p c then recenterToken p else lastRecenterTokenRef c)\<rparr>)"

section \<open>Reference definitions and example inputs\<close>

text \<open>
  A simulator with one loop that is still running: \<open>onComplete\<close> has not been called and
  exactly one \<open>tick\<close> is requested, with \<open>start = st\<close>.
\<close>

definition ticking :: "rat \<Rightarrow> nav \<Rightarrow> bool" where
  "ticking st w \<longleftrightarrow> completed w = 0 \<and> (\<exists>k. raf_pending w = [(k, st)])"

text \<open>A ten-minute route of 0.8 km without walking segments.\<close>

definition route_10min :: route where
  "route_10min = \<lparr>duration = 10, distance = Some literal_0_8, walkingSegments = Some []\<rparr>"

text \<open>The same route with a planned distance of 0, and with one of 2 km.\<close>

definition route_zero_distance :: route where
  "route_zero_distance = \<lparr>duration = 10, distance = Some 0, walkingSegments = Some []\<rparr>"



text \<open>A ten-minute route of three walking segments lasting 2, 2 and 6 minutes.\<close>

definition route_three_legs :: route where
  "route_three_legs =
     \<lparr>duration = 10, distance = Some 2,
      walkingSegments =
        Some [\<lparr>seg_distance = 1 / 2, seg_duration = 2, startPoint = ''Home'', endPoint = ''Stop'',
                isLastMile = False\<rparr>,
              \<lparr>seg_distance = 1 / 2, seg_duration = 2, startPoint = ''Stop'', endPoint = ''Park'',
                isLastMile = False\<rparr>,
              \<lparr>seg_distance = 1, seg_duration = 6, startPoint = ''Park'', endPoint = ''Office'',
                isLastMile = True\<rparr>]\<rparr>"





text \<open>A path of ten points.\<close>

definition path10 :: "latlng list" where
  "path10 = map (\<lambda>i. \<lparr>lat = 3 + of_nat i / 64, lng = 101 + of_nat i / 64\<rparr>) [0..<10]"

text \<open>The route of that path with the two transport modes, and the map data showing it.\<close>

definition bus_mrt_route :: route_with_geo where
  "bus_mrt_route =
     \<lparr>destinationCoords = None, pathCoordinates = Some path10,
      transportModes = Some [''Bus 12'', ''MRT Circle'']\<rparr>"

definition bus_mrt_props :: real_map where
  "bus_mrt_props =
     \<lparr>selectedRoute = Some bus_mrt_route, destinationCoords_prop = None,
      recenterToken = Some 0, userLocation = None, routeLine = path10, console_error = []\<rparr>"

text \<open>
  A route without a precomputed path, the user and the destination known, while the
  route line still holds the two points of an earlier resolution.
\<close>

definition stale_lookup :: real_map where
  "stale_lookup =
     \<lparr>selectedRoute = Some \<lparr>destinationCoords = Some \<lparr>lat = 2, lng = 2\<rparr>,
                             pathCoordinates = None, transportModes = None\<rparr>,
      destinationCoords_prop = None, recenterToken = Some 0,
      userLocation = Some \<lparr>lat = 1, lng = 1\<rparr>,
      routeLine = [\<lparr>lat = 5, lng = 5\<rparr>, \<lparr>lat = 6, lng = 6\<rparr>], console_error = []\<rparr>"

text \<open>The controller after the map was created and drawn once with that data.\<close>

definition first_drawn :: map_ctrl where
  "first_drawn = redraw bus_mrt_props (init_map initial_ctrl)"

text \<open>Map data with a destination but neither a user position nor a route line.\<close>

definition no_line_props :: real_map where
  "no_line_props =
     \<lparr>selectedRoute = None, destinationCoords_prop = Some \<lparr>lat = 2, lng = 2\<rparr>,
      recenterToken = Some 0, userLocation = None, routeLine = [], console_error = []\<rparr>"

section \<open>Properties of the progress simulator\<close>

subsection \<open>Evaluating the model\<close>

lemma floor_divide_rat_numeral:
  "\<lfloor>numeral a / numeral b :: rat\<rfloor> = numeral a div numeral b"
  by (metis floor_divide_of_int_eq of_int_numeral)

lemmas js_eval =
  round_double_def round_pos_def round_at_exponent_def round_to_ulp_def multiple_of_ulp_def
  round_half_even_def nearest_above_def tie_to_even_def negate_def binary_exponent_def pow2_def
  exponent_up.simps exponent_down.simps floor_divide_rat_numeral

lemmas nav_eval =
  run_def tick_def fraction_at_def mount_def effect_def cleanup_def hooks_def
  requestAnimationFrame_def cancelAnimationFrame_def segments_fresh_def
  literal_0_8_def distance_or_default_def segments_def total_duration_def Let_def

lemma literal_0_8_is_double: "round_double (8 / 10) = Num literal_0_8"
  by (simp add: js_eval literal_0_8_def)

lemma literal_3_139_is_double: "round_double (3139 / 1000) = Num literal_3_139"
  by (simp add: js_eval literal_3_139_def)

lemma literal_101_686_is_double: "round_double (101686 / 1000) = Num literal_101_686"
  by (simp add: js_eval literal_101_686_def)

subsection \<open>Rounding keeps the sign\<close>

lemma tie_to_even_nonneg: "0 \<le> f \<Longrightarrow> 0 \<le> tie_to_even f r"
  by (simp add: tie_to_even_def)

lemma round_half_even_nonneg: "0 \<le> x \<Longrightarrow> 0 \<le> round_half_even x"
  by (simp add: round_half_even_def nearest_above_def tie_to_even_nonneg)

lemma pow2_pos: "0 < pow2 e"
  by (simp add: pow2_def)

lemma round_pos_sign:
  assumes "0 < q"
  shows "round_pos q = PosInf \<or> (\<exists>v. round_pos q = Num v \<and> 0 \<le> v)"
proof -
  let ?e = "max (binary_exponent q) (- 1022)"
  have "0 \<le> q / pow2 (?e - 52)"
    using assms pow2_pos [of "?e - 52"] by simp
  then have "0 \<le> round_half_even (q / pow2 (?e - 52))"
    by (rule round_half_even_nonneg)
  then have "0 \<le> rat_of_int (round_half_even (q / pow2 (?e - 52))) * pow2 (?e - 52)"
    using pow2_pos [of "?e - 52"] by simp
  then show ?thesis
    by (simp add: round_pos_def round_at_exponent_def round_to_ulp_def multiple_of_ulp_def)
qed

lemma round_double_nonneg:
  assumes "0 \<le> q"
  shows "round_double q = PosInf \<or> (\<exists>v. round_double q = Num v \<and> 0 \<le> v)"
proof (cases "q = 0")
  case True
  then show ?thesis by (simp add: round_double_def)
next
  case False
  then have "0 < q" using assms by simp
  then show ?thesis using round_pos_sign [of q] by (simp add: round_double_def)
qed

subsection \<open>What one tick sets\<close>

lemma progress_tick: "progress (tick r st now w) = fraction_at r st now"
  by (simp add: tick_def Let_def requestAnimationFrame_def split: option.splits)


lemma distance_tick:
  "remainingDistance (tick r st now w) =
     Math_max
       (toFixed2 (js_mul (Num (distance_or_default r)) (js_sub (Num 1) (fraction_at r st now))))
       (Num 0)"
  by (simp add: tick_def Let_def requestAnimationFrame_def split: option.splits)


subsection \<open>The fraction over successive ticks\<close>

text \<open>
  What holds of every single tick: when the clock has not gone back since the start
  of the tick's closure and \<open>durationMs\<close> is a positive number \<open>D\<close>, the fraction is
  \<open>elapsed / D\<close> clamped to the interval from 0 to 1, and lies in it.
\<close>

lemma fraction_is_clamp:
  assumes "st \<le> now"
    and "js_mul (js_mul (Num (duration r)) (Num 60)) (Num 1000) = Num D" and "0 < D"
  shows "fraction_at r st now
           = Math_max (Num 0) (Math_min (js_div (js_sub (Num now) (Num st)) (Num D)) (Num 1))
       \<and> (\<exists>f. fraction_at r st now = Num f \<and> 0 \<le> f \<and> f \<le> 1)"
proof -
  have fr: "fraction_at r st now = Math_min (js_div (js_sub (Num now) (Num st)) (Num D)) (Num 1)"
    by (simp only: fraction_at_def Let_def assms(2))
  have "0 \<le> now - st" using assms(1) by simp
  then consider "js_sub (Num now) (Num st) = PosInf"
    | e where "js_sub (Num now) (Num st) = Num e" "0 \<le> e"
    using round_double_nonneg [of "now - st"] by auto
  then have "\<exists>f. Math_min (js_div (js_sub (Num now) (Num st)) (Num D)) (Num 1) = Num f
      \<and> 0 \<le> f \<and> f \<le> 1"
  proof cases
    case 1
    then show ?thesis using assms(3) by simp
  next
    case 2
    have "0 \<le> e / D" using 2(2) assms(3) by simp
    then consider "round_double (e / D) = PosInf"
      | v where "round_double (e / D) = Num v" "0 \<le> v"
      using round_double_nonneg [of "e / D"] by auto
    then show ?thesis
    proof cases
      case 1
      then show ?thesis using 2(1) assms(3) by simp
    next
      case 2
      then show ?thesis using \<open>js_sub (Num now) (Num st) = Num e\<close> assms(3) by simp
    qed
  qed
  then obtain f where f: "Math_min (js_div (js_sub (Num now) (Num st)) (Num D)) (Num 1) = Num f"
    "0 \<le> f" "f \<le> 1" by blast
  show ?thesis unfolding fr f(1) using f(2,3) by simp
qed

text \<open>
  Claim C1, evaluated on the code. Each tick computes its fraction from the \<open>start\<close> of
  its own closure. For the ten-minute route without walking segments, mounted at clock
  0, the frame at 299984 ms runs one tick, which sets the progress to the double of
  0.49997...; the state has changed, the render builds a new \<open>segments\<close> array and the
  effect runs again with \<open>start = 299984\<close>, while the request of the first loop stays
  pending. The frame at 300000 ms runs both ticks, the second of which sets the
  progress to the double of 16 / 600000: the progress has gone down. Frames at 16, 33
  and 49 ms do the same: the progress after the second is 17 / 600000 and after the
  third 16 / 600000. On the route of three walking segments the frames at 299984 and
  300000 ms leave one loop, and the progress goes up to 0.5.
\<close>

theorem clock_restarts_without_segments:
  "(let w1 = run route_10min (mount route_10min 0) [Frame 299984];
        w2 = step route_10min w1 (Frame 300000);
        u2 = run route_10min (mount route_10min 0) [Frame 16, Frame 33];
        u3 = step route_10min u2 (Frame 49);
        v1 = run route_three_legs (mount route_three_legs 0) [Frame 299984];
        v2 = step route_three_legs v1 (Frame 300000)
    in raf_pending w1 = [(1, 0), (2, 299984)]
       \<and> progress w1 = round_double (299984 / 600000)
       \<and> raf_pending w2 = [(3, 0), (4, 299984), (5, 300000)]
       \<and> progress w2 = round_double (16 / 600000)
       \<and> js_lt (progress w2) (progress w1)
       \<and> raf_pending u2 = [(3, 0), (4, 16), (5, 33)]
       \<and> progress u2 = round_double (17 / 600000)
       \<and> progress u3 = round_double (16 / 600000)
       \<and> js_lt (progress u3) (progress u2)
       \<and> raf_pending v1 = [(1, 0)]
       \<and> progress v1 = round_double (299984 / 600000)
       \<and> raf_pending v2 = [(2, 0)]
       \<and> progress v2 = Num (1 / 2)
       \<and> js_lt (progress v1) (progress v2))"
  by (simp add: js_eval nav_eval route_10min_def route_three_legs_def)

subsection \<open>Completion\<close>

lemma pending_tick:
  "raf_pending (tick r st now w) =
     (if js_lt (fraction_at r st now) (Num 1) then raf_pending w @ [(raf_next w, st)]
      else raf_pending w)"
  by (simp add: tick_def Let_def requestAnimationFrame_def split: option.splits)

lemma completed_tick:
  "completed (tick r st now w) =
     (if js_lt (fraction_at r st now) (Num 1) then completed w else Suc (completed w))"
  by (simp add: tick_def Let_def requestAnimationFrame_def split: option.splits)

lemma step_frame_single:
  "\<not> segments_fresh r \<Longrightarrow> raf_pending w = [(k, st)]
     \<Longrightarrow> step r w (Frame t) = tick r st t (w\<lparr>raf_pending := []\<rparr>)"
  by (simp add: Let_def)

lemma step_frame_idle:
  assumes "raf_pending w = []"
  shows "step r w (Frame t) = w"
proof -
  have e: "w\<lparr>raf_pending := []\<rparr> = w" using assms by simp
  show ?thesis unfolding step.simps assms e by (simp add: Let_def)
qed

lemma run_frames_idle: "raf_pending w = [] \<Longrightarrow> run r w (map Frame ts) = w"
  unfolding run_def by (induction ts) (simp_all add: step_frame_idle del: step.simps)

lemma run_append: "run r w (es @ fs) = run r (run r w es) fs"
  by (simp add: run_def)

lemma ticking_mount: "ticking st (mount r st)"
  by (simp add: ticking_def mount_def effect_def requestAnimationFrame_def)

lemma ticking_step:
  assumes "\<not> segments_fresh r" and "ticking st w" and "js_lt (fraction_at r st t) (Num 1)"
  shows "ticking st (step r w (Frame t))"
proof -
  from assms(2) obtain k where k: "raf_pending w = [(k, st)]" and c: "completed w = 0"
    by (auto simp: ticking_def)
  show ?thesis
    unfolding step_frame_single [OF assms(1) k] ticking_def
    using assms(3) c by (simp add: pending_tick completed_tick)
qed

lemma ticking_run:
  "\<not> segments_fresh r \<Longrightarrow> ticking st w
     \<Longrightarrow> \<forall>t\<in>set pre. js_lt (fraction_at r st t) (Num 1)
     \<Longrightarrow> ticking st (run r w (map Frame pre))"
proof (induction pre arbitrary: w)
  case Nil
  then show ?case by (simp add: run_def)
next
  case (Cons t pre)
  have "ticking st (step r w (Frame t))"
    using Cons.prems by (simp add: ticking_step del: step.simps)
  then have "ticking st (run r (step r w (Frame t)) (map Frame pre))"
    using Cons.IH Cons.prems(1,3) by simp
  then show ?case by (simp add: run_def del: step.simps)
qed

lemma ticking_finish:
  assumes "\<not> segments_fresh r" and "ticking st w" and "\<not> js_lt (fraction_at r st t) (Num 1)"
  shows "completed (step r w (Frame t)) = 1 \<and> raf_pending (step r w (Frame t)) = []"
proof -
  from assms(2) obtain k where k: "raf_pending w = [(k, st)]" and c: "completed w = 0"
    by (auto simp: ticking_def)
  show ?thesis
    unfolding step_frame_single [OF assms(1) k]
    using assms(3) c by (simp add: pending_tick completed_tick)
qed

text \<open>
  With walking segments the array is the route's own, the effect runs once, and the
  callback is called exactly once: not while the fraction is below 1 at every frame,
  once at the first frame where it is not, and no frame after that changes anything.
\<close>

lemma completion_once_with_segments:
  assumes "\<not> segments_fresh r"
    and "\<forall>t\<in>set pre. js_lt (fraction_at r st t) (Num 1)"
    and "\<not> js_lt (fraction_at r st t) (Num 1)"
  shows "completed (run r (mount r st) (map Frame pre)) = 0
       \<and> completed (run r (mount r st) (map Frame (pre @ [t]))) = 1
       \<and> raf_pending (run r (mount r st) (map Frame (pre @ [t]))) = []
       \<and> run r (mount r st) (map Frame (pre @ [t] @ ts))
           = run r (mount r st) (map Frame (pre @ [t]))"
proof -
  let ?w = "run r (mount r st) (map Frame pre)"
  have tk: "ticking st ?w"
    using ticking_run [OF assms(1) ticking_mount assms(2)] .
  have eq: "run r (mount r st) (map Frame (pre @ [t])) = step r ?w (Frame t)"
    by (simp add: run_def del: step.simps)
  have fin: "completed (step r ?w (Frame t)) = 1 \<and> raf_pending (step r ?w (Frame t)) = []"
    using ticking_finish [OF assms(1) tk assms(3)] .
  have "completed ?w = 0" using tk by (simp add: ticking_def)
  moreover have "run r (mount r st) (map Frame (pre @ [t] @ ts))
      = run r (mount r st) (map Frame (pre @ [t]))"
  proof -
    have "run r (mount r st) (map Frame (pre @ [t] @ ts))
        = run r (run r (mount r st) (map Frame (pre @ [t]))) (map Frame ts)"
      by (simp add: run_def del: step.simps)
    then show ?thesis using fin eq by (simp add: run_frames_idle del: step.simps)
  qed
  ultimately show ?thesis using fin eq by (simp del: step.simps)
qed

text \<open>
  Claim C3, evaluated on the code. For the same route and frames at 16, 300000 and
  600000 ms, the loop started at mount completes at 600000 ms and calls \<open>onComplete\<close>,
  but the loops started by the re-run effects at 16 and 300000 ms are still requested,
  with a new one started at 600000 ms; the frame at 600016 ms completes the loop started
  at 16 ms, which calls \<open>onComplete\<close> a second time. On the route of three walking
  segments the same frames give one call and leave nothing requested.
\<close>

theorem completion_repeats_without_segments:
  "(let w3 = run route_10min (mount route_10min 0) [Frame 16, Frame 300000, Frame 600000];
        w4 = step route_10min w3 (Frame 600016);
        v3 = run route_three_legs (mount route_three_legs 0)
               [Frame 16, Frame 300000, Frame 600000];
        v4 = step route_three_legs v3 (Frame 600016)
    in completed w3 = 1
       \<and> raf_pending w3 = [(6, 16), (7, 300000), (8, 600000)]
       \<and> completed w4 = 2
       \<and> completed v3 = 1 \<and> raf_pending v3 = [] \<and> completed v4 = 1)"
  by (simp add: js_eval nav_eval route_10min_def route_three_legs_def)

subsection \<open>Teardown\<close>

text \<open>
  Claim C5, evaluated on the code. The cleanup cancels the request whose id the effect
  stored, which is the first one of that effect; the requests that \<open>tick\<close> makes for
  itself are not stored. On the route of three segments, after a first frame at 16 ms
  the pending request has id 1; the teardown leaves it pending, and the frame at
  600000 ms then runs \<open>tick\<close>, which passes 1 to \<open>setProgress\<close> and calls \<open>onComplete\<close>. On
  the route without segments the effect has run again at 16 ms and requested id 2; the
  teardown cancels that one and still leaves id 1, with the same end.
\<close>

theorem teardown_keeps_tick:
  "(let w1 = run route_three_legs (mount route_three_legs 0) [Frame 16];
        w2 = step route_three_legs w1 Teardown;
        w3 = step route_three_legs w2 (Frame 600000);
        v1 = run route_10min (mount route_10min 0) [Frame 16];
        v2 = step route_10min v1 Teardown;
        v3 = step route_10min v2 (Frame 600000)
    in raf_pending w1 = [(1, 0)] \<and> raf_pending w2 = [(1, 0)]
       \<and> progress w3 = Num 1 \<and> completed w3 = 1
       \<and> raf_pending v1 = [(1, 0), (2, 16)] \<and> raf_pending v2 = [(1, 0)]
       \<and> progress v3 = Num 1 \<and> completed v3 = 1)"
  by (simp add: js_eval nav_eval route_10min_def route_three_legs_def)

subsection \<open>The active segment\<close>








subsection \<open>Remaining time and distance\<close>







text \<open>
  Claim C10. When the route's distance is absent or 0, the initial remaining distance is
  0.8, every tick computes the remaining distance that it computes for the same route
  with distance 0.8, and the synthetic last-mile segment of a route without segments has
  distance 0.8.
\<close>

theorem default_distance:
  assumes "distance r = None \<or> distance r = Some 0"
  shows "remainingDistance (mount r st) = Num literal_0_8
       \<and> remainingDistance (tick r st' now w)
           = remainingDistance (tick (r\<lparr>distance := Some literal_0_8\<rparr>) st' now w)
       \<and> (walkingSegments r = None \<or> walkingSegments r = Some []
            \<longrightarrow> map seg_distance (segments r) = [literal_0_8])"
proof -
  have d: "distance_or_default r = literal_0_8"
    using assms by (auto simp: distance_or_default_def)
  have d': "distance_or_default (r\<lparr>distance := Some literal_0_8\<rparr>) = literal_0_8"
    by (simp add: distance_or_default_def)
  have f: "fraction_at (r\<lparr>distance := Some literal_0_8\<rparr>) st' now = fraction_at r st' now"
    by (simp add: fraction_at_def)
  have 1: "remainingDistance (mount r st) = Num literal_0_8"
    by (simp add: mount_def effect_def requestAnimationFrame_def d)
  have 2: "remainingDistance (tick r st' now w)
      = remainingDistance (tick (r\<lparr>distance := Some literal_0_8\<rparr>) st' now w)"
    unfolding distance_tick d d' f ..
  have 3: "walkingSegments r = None \<or> walkingSegments r = Some []
            \<longrightarrow> map seg_distance (segments r) = [literal_0_8]"
    by (auto simp: segments_def d)
  show ?thesis using 1 2 3 by blast
qed

theorem default_distance_witness:
  "(distance route_zero_distance = None \<or> distance route_zero_distance = Some 0)
   \<and> (walkingSegments route_zero_distance = None \<or> walkingSegments route_zero_distance = Some [])
   \<and> round_double (8 / 10) = Num literal_0_8
   \<and> remainingDistance (mount route_zero_distance 0) = Num literal_0_8
   \<and> remainingDistance (tick route_zero_distance 0 300000 (mount route_zero_distance 0))
       = round_double (40 / 100)
   \<and> map seg_distance (segments route_zero_distance) = [literal_0_8]"
proof -
  have a: "distance route_zero_distance = None \<or> distance route_zero_distance = Some 0"
    by (simp add: route_zero_distance_def)
  have b: "walkingSegments route_zero_distance = None \<or> walkingSegments route_zero_distance = Some []"
    by (simp add: route_zero_distance_def)
  have c: "remainingDistance (tick (route_zero_distance\<lparr>distance := Some literal_0_8\<rparr>) 0 300000
             (mount route_zero_distance 0)) = round_double (40 / 100)"
    by (simp add: js_eval nav_eval route_zero_distance_def)
  show ?thesis
    using a b c literal_0_8_is_double
      default_distance [OF a, of 0 0 300000 "mount route_zero_distance 0"]
    by simp
qed


section \<open>Properties of the map component\<close>

subsection \<open>Transit stops\<close>

lemma enumerate_nth_map:
  "i < length xs \<Longrightarrow> map f (enumerate n xs) ! i = f (n + i, xs ! i)"
  by (simp add: nth_enumerate_eq)

text \<open>
  Claim C9. For a non-empty path (the route's precomputed path when it has one, the
  route line otherwise) and a non-empty list of transport-mode labels, there is one stop
  per label; the stop of the label at index \<open>i\<close> is anchored at
  \<open>path[min(i * step, length - 1)]\<close> with \<open>step = max(1, length div labels)\<close>, and its
  category is \<open>bus\<close> if the lower-cased label contains \<open>bus\<close>, else \<open>rail\<close> if it contains
  \<open>metro\<close>, \<open>mrt\<close> or \<open>rail\<close>, else \<open>walk\<close>. The path of ten points with the labels
  \<open>Bus 12\<close> and \<open>MRT Circle\<close> gives the stops at indices 0 and 5, \<open>bus\<close> and \<open>rail\<close>.
\<close>

theorem transit_stops_projection:
  assumes "selectedRoute p = Some r" and "transportModes r = Some modes" and "modes \<noteq> []"
    and "path = (case pathCoordinates r of Some (c # cs) \<Rightarrow> c # cs | _ \<Rightarrow> routeLine p)"
    and "path \<noteq> []"
  shows "length (transitStops p) = length modes
       \<and> (\<forall>i<length modes.
            point (transitStops p ! i) =
              path ! min (i * max 1 (length path div length modes)) (length path - 1)
            \<and> icon (transitStops p ! i) =
                (if sublist ''bus'' (toLowerCase (modes ! i)) then bus
                 else if sublist ''metro'' (toLowerCase (modes ! i))
                       \<or> sublist ''mrt'' (toLowerCase (modes ! i))
                       \<or> sublist ''rail'' (toLowerCase (modes ! i)) then rail
                 else walk))"
proof -
  obtain m ms where ms: "modes = m # ms" using assms(3) by (cases modes) auto
  let ?step = "max 1 (length path div length modes)"
  let ?mk = "\<lambda>(idx, mode).
     let pt = path ! (min (idx * ?step) (length path - 1)); normalized = toLowerCase mode
     in \<lparr>point = pt,
         icon = (if str_includes normalized ''bus'' then bus
                 else if str_includes normalized ''metro'' \<or> str_includes normalized ''mrt''
                         \<or> str_includes normalized ''rail'' then rail
                 else walk)\<rparr>"
  have path': "(case pathCoordinates r of Some (c # cs) \<Rightarrow> c # cs | _ \<Rightarrow> routeLine p) = path"
    using assms(4) by simp
  have ts: "transitStops p = map ?mk (enumerate 0 modes)"
    using assms(5) by (simp add: transitStops_def assms(1,2) ms path' Let_def)
  have len: "length (transitStops p) = length modes"
    unfolding ts by simp
  have nth: "transitStops p ! i = ?mk (i, modes ! i)" if "i < length modes" for i
    unfolding ts using enumerate_nth_map [OF that, of ?mk 0] by simp
  show ?thesis
    using len nth by (simp add: Let_def str_includes_def)
qed

theorem transit_stops_projection_witness:
  "selectedRoute bus_mrt_props = Some bus_mrt_route
   \<and> transportModes bus_mrt_route = Some [''Bus 12'', ''MRT Circle'']
   \<and> [''Bus 12'', ''MRT Circle''] \<noteq> []
   \<and> path10 = (case pathCoordinates bus_mrt_route of Some (c # cs) \<Rightarrow> c # cs
                | _ \<Rightarrow> routeLine bus_mrt_props)
   \<and> path10 \<noteq> [] \<and> length path10 = 10
   \<and> length (transitStops bus_mrt_props) = 2
   \<and> point (transitStops bus_mrt_props ! 0) = path10 ! 0
   \<and> icon (transitStops bus_mrt_props ! 0) = bus
   \<and> point (transitStops bus_mrt_props ! 1) = path10 ! 5
   \<and> icon (transitStops bus_mrt_props ! 1) = rail"
proof -
  have a: "selectedRoute bus_mrt_props = Some bus_mrt_route"
    by (simp add: bus_mrt_props_def)
  have b: "transportModes bus_mrt_route = Some [''Bus 12'', ''MRT Circle'']"
    by (simp add: bus_mrt_route_def)
  have c: "[''Bus 12'', ''MRT Circle''] \<noteq> []" by simp
  have l: "length path10 = 10" by (simp add: path10_def)
  have e: "path10 \<noteq> []" using l by auto
  have d: "path10 = (case pathCoordinates bus_mrt_route of Some (c # cs) \<Rightarrow> c # cs
                | _ \<Rightarrow> routeLine bus_mrt_props)"
    using e by (simp add: bus_mrt_route_def split: list.splits)
  have lo: "toLowerCase ''Bus 12'' = ''bus 12''" "toLowerCase ''MRT Circle'' = ''mrt circle''"
    by code_simp+
  have sub: "sublist ''bus'' ''bus 12''" "\<not> sublist ''bus'' ''mrt circle''"
    "sublist ''mrt'' ''mrt circle''"
    by code_simp+
  have ar: "(10::nat) div Suc (Suc 0) = 5" by code_simp
  note t = transit_stops_projection [OF a b c d e]
  have t0: "point (transitStops bus_mrt_props ! 0) = path10 ! 0
      \<and> icon (transitStops bus_mrt_props ! 0) = bus"
    using t l lo sub by simp
  have t1: "point (transitStops bus_mrt_props ! 1) = path10 ! 5
      \<and> icon (transitStops bus_mrt_props ! 1) = rail"
    using t l lo sub ar by simp
  show ?thesis
    using a b c d e l t t0 t1 by simp
qed

subsection \<open>The recenter policy\<close>

lemma redraw_mounted_view:
  "mounted c \<Longrightarrow> view_calls (redraw p c) = view_calls c @ recenter_calls p c"
  by (simp add: redraw_def)

lemma redraw_mounted_first: "mounted c \<Longrightarrow> \<not> firstDrawRef (redraw p c)"
  by (simp add: redraw_def)

lemma redraw_mounted_token:
  "mounted c \<Longrightarrow> lastRecenterTokenRef (redraw p c) =
     (if forceRecenter p c then recenterToken p else lastRecenterTokenRef c)"
  by (simp add: redraw_def)

lemma redraw_stays_mounted: "mounted (redraw p c) = mounted c"
  by (simp add: redraw_def)

lemma recenter_calls_none:
  "\<not> firstDrawRef c \<Longrightarrow> \<not> forceRecenter p c \<Longrightarrow> recenter_calls p c = []"
  by (simp add: recenter_calls_def)

lemma recenter_calls_one:
  "firstDrawRef c \<or> forceRecenter p c \<Longrightarrow> \<exists>v. recenter_calls p c = [v]"
  by (auto simp: recenter_calls_def Let_def split: option.splits)

text \<open>
  Claim C2. With the map mounted: a redraw whose token is the last applied one, and
  which is not a first draw, makes no viewport call; a redraw whose token \<open>t\<close> differs
  from the last applied one makes exactly one viewport call and stores \<open>t\<close> as the last
  applied token, so that the redraw right after it with the same token makes none.
\<close>

theorem recenter_once_per_token:
  assumes "mounted c"
  shows "(recenterToken p = lastRecenterTokenRef c \<and> \<not> firstDrawRef c
            \<longrightarrow> view_calls (redraw p c) = view_calls c)
       \<and> (recenterToken p = Some t \<and> lastRecenterTokenRef c \<noteq> Some t
            \<longrightarrow> (\<exists>v. view_calls (redraw p c) = view_calls c @ [v])
                \<and> lastRecenterTokenRef (redraw p c) = Some t
                \<and> (recenterToken p' = Some t
                     \<longrightarrow> view_calls (redraw p' (redraw p c)) = view_calls (redraw p c)))"
proof -
  have same: "view_calls (redraw p c) = view_calls c"
    if "recenterToken p = lastRecenterTokenRef c" "\<not> firstDrawRef c"
  proof -
    have "\<not> forceRecenter p c"
      using that(1) by (simp add: forceRecenter_def split: option.splits)
    then show ?thesis
      using assms that(2) by (simp add: redraw_mounted_view recenter_calls_none)
  qed
  have changed: "(\<exists>v. view_calls (redraw p c) = view_calls c @ [v])
        \<and> lastRecenterTokenRef (redraw p c) = Some t
        \<and> (recenterToken p' = Some t
             \<longrightarrow> view_calls (redraw p' (redraw p c)) = view_calls (redraw p c))"
    if tok: "recenterToken p = Some t" "lastRecenterTokenRef c \<noteq> Some t"
  proof -
    have force: "forceRecenter p c"
      using tok by (auto simp: forceRecenter_def)
    then obtain v where v: "recenter_calls p c = [v]"
      using recenter_calls_one by blast
    have last: "lastRecenterTokenRef (redraw p c) = Some t"
      using assms force tok(1) by (simp add: redraw_mounted_token)
    have again: "view_calls (redraw p' (redraw p c)) = view_calls (redraw p c)"
      if "recenterToken p' = Some t"
    proof -
      have "\<not> forceRecenter p' (redraw p c)"
        using that last by (simp add: forceRecenter_def)
      moreover have "\<not> firstDrawRef (redraw p c)"
        using assms by (rule redraw_mounted_first)
      moreover have "mounted (redraw p c)"
        using assms by (simp add: redraw_stays_mounted)
      ultimately show ?thesis
        by (simp add: redraw_mounted_view recenter_calls_none)
    qed
    show ?thesis
      using assms v last again by (simp add: redraw_mounted_view)
  qed
  show ?thesis using same changed by blast
qed

theorem recenter_once_per_token_witness:
  "mounted first_drawn
   \<and> recenterToken bus_mrt_props = lastRecenterTokenRef first_drawn \<and> \<not> firstDrawRef first_drawn
   \<and> view_calls (redraw bus_mrt_props first_drawn) = view_calls first_drawn
   \<and> recenterToken (bus_mrt_props\<lparr>recenterToken := Some 1\<rparr>) = Some 1
   \<and> lastRecenterTokenRef first_drawn \<noteq> Some 1
   \<and> length (view_calls (redraw (bus_mrt_props\<lparr>recenterToken := Some 1\<rparr>) first_drawn))
       = Suc (length (view_calls first_drawn))
   \<and> lastRecenterTokenRef (redraw (bus_mrt_props\<lparr>recenterToken := Some 1\<rparr>) first_drawn) = Some 1
   \<and> view_calls (redraw (bus_mrt_props\<lparr>recenterToken := Some 1\<rparr>)
        (redraw (bus_mrt_props\<lparr>recenterToken := Some 1\<rparr>) first_drawn))
       = view_calls (redraw (bus_mrt_props\<lparr>recenterToken := Some 1\<rparr>) first_drawn)"
proof -
  let ?p1 = "bus_mrt_props\<lparr>recenterToken := Some 1\<rparr>"
  have m: "mounted first_drawn"
    by (simp add: first_drawn_def redraw_def init_map_def initial_ctrl_def)
  have tok: "lastRecenterTokenRef first_drawn = Some 0"
    by (simp add: first_drawn_def redraw_def init_map_def initial_ctrl_def forceRecenter_def
        bus_mrt_props_def)
  have fd: "\<not> firstDrawRef first_drawn"
    by (simp add: first_drawn_def redraw_def init_map_def initial_ctrl_def)
  have p0: "recenterToken bus_mrt_props = Some 0" by (simp add: bus_mrt_props_def)
  have p1: "recenterToken ?p1 = Some 1" by simp
  note same = recenter_once_per_token [OF m, of bus_mrt_props 7 bus_mrt_props]
  note changed = recenter_once_per_token [OF m, of ?p1 1 ?p1]
  have s: "view_calls (redraw bus_mrt_props first_drawn) = view_calls first_drawn"
    using same tok fd p0 by simp
  have c: "(\<exists>v. view_calls (redraw ?p1 first_drawn) = view_calls first_drawn @ [v])
      \<and> lastRecenterTokenRef (redraw ?p1 first_drawn) = Some 1
      \<and> view_calls (redraw ?p1 (redraw ?p1 first_drawn)) = view_calls (redraw ?p1 first_drawn)"
    using changed tok by simp
  then have l: "length (view_calls (redraw ?p1 first_drawn)) = Suc (length (view_calls first_drawn))"
    by auto
  show ?thesis
    using m tok fd p0 s c l by simp
qed

lemma getBounds_some: "2 \<le> length ps \<Longrightarrow> \<exists>b. getBounds ps = Some b"
  by (cases ps) simp_all

lemma fold_min_lower: "x \<in> set (a # xs) \<Longrightarrow> fold min xs (a::rat) \<le> x"
  unfolding Min.set_eq_fold [symmetric] by (rule Min_le) simp_all

lemma fold_max_upper: "x \<in> set (a # xs) \<Longrightarrow> x \<le> fold max xs (a::rat)"
  unfolding Max.set_eq_fold [symmetric] by (rule Max_ge) simp_all

lemma getBounds_encloses:
  assumes "getBounds ps = Some b" and "q \<in> set ps"
  shows "lat (southWest b) \<le> lat q \<and> lat q \<le> lat (northEast b)
       \<and> lng (southWest b) \<le> lng q \<and> lng q \<le> lng (northEast b)"
proof -
  obtain p0 rest where ps: "ps = p0 # rest" using assms(1) by (cases ps) auto
  have la: "lat q \<in> set (lat p0 # map lat rest)" and ln: "lng q \<in> set (lng p0 # map lng rest)"
    using assms(2) ps by auto
  have b: "b = \<lparr>southWest = \<lparr>lat = fold min (map lat rest) (lat p0),
                               lng = fold min (map lng rest) (lng p0)\<rparr>,
                northEast = \<lparr>lat = fold max (map lat rest) (lat p0),
                               lng = fold max (map lng rest) (lng p0)\<rparr>\<rparr>"
    using assms(1) unfolding ps by simp
  show ?thesis
    unfolding b
    using fold_min_lower [OF la] fold_max_upper [OF la] fold_min_lower [OF ln] fold_max_upper [OF ln]
    by simp
qed

text \<open>
  Claim C6. When a redraw recenters: with fewer than 2 points in the route line the
  call is \<open>setView\<close> on the computed center, at zoom 16 for a forced recenter and at zoom
  14 for a first draw whose token is unchanged, and 14 is less than 16; with at least 2
  points the call is \<open>fitBounds\<close> with padding 32 on the box that encloses every point of
  the route line.
\<close>

theorem recenter_view:
  assumes "mounted c" and "firstDrawRef c \<or> forceRecenter p c"
  shows "(length (routeLine p) < 2 \<and> forceRecenter p c
            \<longrightarrow> view_calls (redraw p c) = view_calls c @ [setView (center p) 16])
       \<and> (length (routeLine p) < 2 \<and> \<not> forceRecenter p c
            \<longrightarrow> view_calls (redraw p c) = view_calls c @ [setView (center p) 14])
       \<and> (14::nat) < 16
       \<and> (2 \<le> length (routeLine p)
            \<longrightarrow> (\<exists>b. getBounds (routeLine p) = Some b
                   \<and> view_calls (redraw p c) = view_calls c @ [fitBounds b (32, 32)]
                   \<and> (\<forall>q\<in>set (routeLine p).
                          lat (southWest b) \<le> lat q \<and> lat q \<le> lat (northEast b)
                          \<and> lng (southWest b) \<le> lng q \<and> lng q \<le> lng (northEast b))))"
proof -
  have short: "recenter_calls p c = [setView (center p) (if forceRecenter p c then 16 else 14)]"
    if "length (routeLine p) < 2"
    using that assms(2) by (simp add: recenter_calls_def)
  have long: "\<exists>b. getBounds (routeLine p) = Some b \<and> recenter_calls p c = [fitBounds b (32, 32)]
        \<and> (\<forall>q\<in>set (routeLine p).
               lat (southWest b) \<le> lat q \<and> lat q \<le> lat (northEast b)
               \<and> lng (southWest b) \<le> lng q \<and> lng q \<le> lng (northEast b))"
    if ge: "2 \<le> length (routeLine p)"
  proof -
    obtain b where b: "getBounds (routeLine p) = Some b"
      using getBounds_some [OF ge] by blast
    have "1 < length (routeLine p)" using ge by simp
    then have "recenter_calls p c = [fitBounds b (32, 32)]"
      using assms(2) b by (simp add: recenter_calls_def)
    then show ?thesis using b getBounds_encloses [OF b] by blast
  qed
  show ?thesis
    using short long unfolding redraw_mounted_view [OF assms(1)] by auto
qed

theorem recenter_view_witness:
  "mounted (init_map initial_ctrl)
   \<and> forceRecenter no_line_props (init_map initial_ctrl)
   \<and> length (routeLine no_line_props) < 2
   \<and> view_calls (redraw no_line_props (init_map initial_ctrl)) = [setView \<lparr>lat = 2, lng = 2\<rparr> 16]
   \<and> mounted (rearm first_drawn) \<and> firstDrawRef (rearm first_drawn)
   \<and> \<not> forceRecenter no_line_props (rearm first_drawn)
   \<and> view_calls (redraw no_line_props (rearm first_drawn))
       = view_calls (rearm first_drawn) @ [setView \<lparr>lat = 2, lng = 2\<rparr> 14]
   \<and> 2 \<le> length (routeLine bus_mrt_props)
   \<and> (\<exists>b. view_calls (redraw bus_mrt_props (rearm first_drawn))
           = view_calls (rearm first_drawn) @ [fitBounds b (32, 32)])"
proof -
  let ?c0 = "init_map initial_ctrl"
  let ?c1 = "rearm first_drawn"
  have m0: "mounted ?c0" by (simp add: init_map_def initial_ctrl_def)
  have f0: "forceRecenter no_line_props ?c0"
    by (simp add: forceRecenter_def no_line_props_def init_map_def initial_ctrl_def)
  have s0: "length (routeLine no_line_props) < 2" by (simp add: no_line_props_def)
  have v0: "view_calls ?c0 = []" by (simp add: init_map_def initial_ctrl_def)
  have ce: "center no_line_props = \<lparr>lat = 2, lng = 2\<rparr>"
    by (simp add: center_def destinationPoint_def no_line_props_def)
  have m1: "mounted ?c1"
    by (simp add: rearm_def first_drawn_def redraw_def init_map_def initial_ctrl_def)
  have d1: "firstDrawRef ?c1" by (simp add: rearm_def)
  have f1: "\<not> forceRecenter no_line_props ?c1"
    by (simp add: forceRecenter_def no_line_props_def rearm_def first_drawn_def redraw_def
        init_map_def initial_ctrl_def bus_mrt_props_def)
  have l1: "2 \<le> length (routeLine bus_mrt_props)"
    by (simp add: bus_mrt_props_def path10_def)
  have a: "view_calls (redraw no_line_props ?c0) = [setView \<lparr>lat = 2, lng = 2\<rparr> 16]"
    using recenter_view [OF m0, of no_line_props] f0 s0 v0 ce by simp
  have b: "view_calls (redraw no_line_props ?c1) = view_calls ?c1 @ [setView \<lparr>lat = 2, lng = 2\<rparr> 14]"
    using recenter_view [OF m1, of no_line_props] d1 f1 s0 ce by simp
  have c: "\<exists>b. view_calls (redraw bus_mrt_props ?c1) = view_calls ?c1 @ [fitBounds b (32, 32)]"
    using recenter_view [OF m1, of bus_mrt_props] d1 l1 by auto
  show ?thesis
    using m0 f0 s0 a m1 d1 f1 b l1 c by simp
qed

subsection \<open>A failed routing lookup\<close>

text \<open>A lookup that fails leaves the route line as it was.\<close>

lemma failed_lookup_line_unchanged:
  assumes "geometry_effect p = (p', True)"
    and "out = FetchRejected n \<or> out = JsonRejected n
         \<or> (out = JsonData d \<and> response_coordinates d = None)"
  shows "routeLine (resolve_geometry out p) = routeLine p"
proof -
  have "p' = p"
    using assms(1) by (auto simp: geometry_effect_def split: option.splits list.splits if_splits)
  then show ?thesis
    using assms by (auto simp: resolve_geometry_def fetch_settled_def)
qed

text \<open>
  Claim C4, evaluated on the code. The route has no precomputed path, the user and the
  destination are known, and the route line holds two points of an earlier resolution.
  The effect sends the request; when it is rejected with a network error the route line
  still holds the two points, and when the answer carries no routes nothing changes at
  all: the line is kept and nothing is logged.
\<close>

theorem failed_lookup_keeps_stale_line:
  "geometry_effect stale_lookup = (stale_lookup, True)
   \<and> routeLine (resolve_geometry (FetchRejected ''TypeError'') stale_lookup)
       = [\<lparr>lat = 5, lng = 5\<rparr>, \<lparr>lat = 6, lng = 6\<rparr>]
   \<and> resolve_geometry (JsonData \<lparr>routes = None\<rparr>) stale_lookup = stale_lookup"
  by (simp add: geometry_effect_def resolve_geometry_def fetch_settled_def stale_lookup_def
      destinationPoint_def response_coordinates_def)

end
